theory Spec2Isabelle
  imports Main "HOL-Library.Multiset"
begin

section \<open>The iSCSI Common Layer driver registry (sys/dev/iscsi/icl.c)\<close>

text \<open>
  The unit keeps a queue of offload drivers (\<open>struct icl_module\<close>) in a single
  \<open>struct icl_softc\<close>. The embedding follows these conventions.
  \<^item> A C string is the \<open>string\<close> of its characters before the terminating NUL; a
    \<open>const char *\<close> that may be \<open>NULL\<close> is a \<open>string option\<close>.
  \<^item> The tail queue \<open>sc_modules\<close> is the list of its nodes in traversal order (head
    first). A pointer to a node, as \<open>icl_find\<close> returns it, is the position of the node
    in that list; the \<open>NULL\<close> pointer is \<open>None\<close>.
  \<^item> \<open>im_priority\<close> is a C \<open>int\<close> that is only stored and compared, never computed
    with, so it is an \<open>int\<close>; the same holds for the status codes.
  \<^item> The two callbacks of a driver are functions that read and change the part of the
    machine outside of this unit, the type variable \<open>'w\<close>. \<open>im_limits\<close> receives the
    content of the cell \<open>limitp\<close> points to and gives back the status and the new
    content. Other pointers (\<open>struct icl_conn *\<close>, \<open>struct mtx *\<close>) are addresses.
  \<^item> The storage this unit gets from \<open>malloc\<close> and \<open>strdup\<close> under its malloc type
    \<open>M_ICL\<close> is part of the state: the list of the live allocations, each named by
    what it holds (the unit never changes a record or a name once it has made it).
  \<^item> \<open>sc_lock\<close> is not part of the state: every function below releases it before it
    returns, and the embedding runs one call at a time.
  \<^item> A kernel panic is the \<open>Inl\<close> of a result.
\<close>

subsection \<open>Data\<close>

type_synonym addr = nat

datatype panic = Null_deref | Kassert string

type_synonym 'w limits_fn = "nat \<Rightarrow> 'w \<Rightarrow> (int \<times> nat) \<times> 'w"

type_synonym 'w new_conn_fn = "string option \<Rightarrow> addr option \<Rightarrow> 'w \<Rightarrow> addr option \<times> 'w"

record 'w icl_module =
  im_name :: string
  im_priority :: int
  im_limits :: "'w limits_fn"
  im_new_conn :: "'w new_conn_fn"

record 'w icl_softc =
  sc_modules :: "'w icl_module list"

datatype icl_msg =
  Not_found | Already_registered | Registered | Not_registered | Unregistered

datatype log_entry =
  Warning icl_msg "string option"
| Debug icl_msg "string option"

text \<open>
  A live allocation of malloc type \<open>M_ICL\<close>: the softc, the storage of one record,
  or the copy of one name.
\<close>

datatype 'w alloc =
  Softc_storage
| Module_storage "'w icl_module"
| Name_string string

text \<open>
  The state the functions of the unit work on: the softc the global \<open>sc\<close> points to,
  the kernel message buffer, the live allocations of type \<open>M_ICL\<close> (the newest
  first), and the rest of the machine as the callbacks see it.
\<close>

record 'w kern =
  sc :: "'w icl_softc"
  msgbuf :: "log_entry list"
  m_icl :: "'w alloc list"
  world :: 'w

subsection \<open>What the unit uses from the rest of the kernel\<close>

text \<open>
  Modelled from the spec: the errno constants of \<open>sys/errno.h\<close> are not among the
  sources. The spec's "no such device" (\<open>NotFound\<close>) is \<open>ENXIO\<close> and its
  \<open>AlreadyRegistered\<close> is \<open>EBUSY\<close>; the numbers are FreeBSD's.
\<close>

definition ENXIO :: int where
  "ENXIO = 6"

definition EBUSY :: int where
  "EBUSY = 16"

text \<open>
  Modelled from the spec: \<open>tolower\<close> and \<open>strcasecmp\<close> of libkern are not among the
  sources. The spec asks for a "case-insensitive exact match"; \<open>strcasecmp\<close> compares
  the two strings character by character after folding \<open>A\<close> .. \<open>Z\<close> to lower case
  and returns the difference at the first place where they differ, 0 when both end
  before that. The end of a string reads as the NUL character, and a NUL character
  ends the comparison.
\<close>

definition tolower :: "char \<Rightarrow> nat" where
  "tolower c = (let n = (of_char c :: nat)
                in if of_char CHR ''A'' \<le> n \<and> n \<le> of_char CHR ''Z'' then n + 32 else n)"

fun strcasecmp :: "string \<Rightarrow> string \<Rightarrow> int" where
  "strcasecmp [] [] = 0"
| "strcasecmp [] (c2 # s2) = 0 - int (tolower c2)"
| "strcasecmp (c1 # s1) [] = int (tolower c1) - 0"
| "strcasecmp (c1 # s1) (c2 # s2) =
     (if tolower c1 = tolower c2
      then (if of_char c1 = (0 :: nat) then 0 else strcasecmp s1 s2)
      else int (tolower c1) - int (tolower c2))"

text \<open>
  Modelled from the spec: \<open>malloc\<close> and \<open>free\<close> of the kernel are not among the
  sources. The spec has register allocate "an owned DriverRecord" and unregister
  release "the record's owned resources (name string, record memory)". \<open>malloc\<close>
  with \<open>M_WAITOK\<close> does not fail and adds one live allocation; \<open>free\<close> takes one
  allocation that holds the given object out of the live ones.
\<close>

definition malloc :: "'w alloc \<Rightarrow> 'w kern \<Rightarrow> 'w kern" where
  "malloc obj s = s\<lparr>m_icl := obj # m_icl s\<rparr>"

definition free :: "'w alloc \<Rightarrow> 'w kern \<Rightarrow> 'w kern" where
  "free obj s = s\<lparr>m_icl := remove1 obj (m_icl s)\<rparr>"

text \<open>
  Modelled from the spec: \<open>strdup\<close> of libkern is not among the sources. It gives an
  owned copy of the string ("owned copy (the registry does not alias caller-supplied
  memory)"), which is one more live allocation; it reads through its argument, so
  \<open>NULL\<close> is a fault.
\<close>

definition strdup :: "string option \<Rightarrow> 'w kern \<Rightarrow> panic + (string \<times> 'w kern)" where
  "strdup p s =
     (case p of
        None \<Rightarrow> Inl Null_deref
      | Some str \<Rightarrow> Inr (str, malloc (Name_string str) s))"

text \<open>
  Modelled from the spec: the macros \<open>ICL_WARN\<close> and \<open>ICL_DEBUG\<close> of \<open>icl.h\<close> are not
  among the sources. The spec has a "warning log entry on failure" and a "diagnostic log
  entry on success"; an entry keeps the message and its \<open>%s\<close> argument.
\<close>

definition ICL_WARN :: "icl_msg \<Rightarrow> string option \<Rightarrow> 'w kern \<Rightarrow> 'w kern" where
  "ICL_WARN m a s = s\<lparr>msgbuf := msgbuf s @ [Warning m a]\<rparr>"

definition ICL_DEBUG :: "icl_msg \<Rightarrow> string option \<Rightarrow> 'w kern \<Rightarrow> 'w kern" where
  "ICL_DEBUG m a s = s\<lparr>msgbuf := msgbuf s @ [Debug m a]\<rparr>"

text \<open>
  Modelled from the spec: the \<open>TAILQ\<close> macros of \<open>sys/queue.h\<close> are not among the
  sources. The spec has an "ordered collection" with insertion "at the head" and
  removal of one record. \<open>KASSERT\<close> of \<open>sys/systm.h\<close> is not among them either;
  the spec has a "fatal assertion", so a false condition is a panic with the message.
\<close>

definition KASSERT :: "bool \<Rightarrow> string \<Rightarrow> panic + unit" where
  "KASSERT exp msg = (if exp then Inr () else Inl (Kassert msg))"

definition TAILQ_FIRST :: "'a list \<Rightarrow> nat option" where
  "TAILQ_FIRST q = (case q of [] \<Rightarrow> None | x # xs \<Rightarrow> Some 0)"

definition TAILQ_EMPTY :: "'a list \<Rightarrow> bool" where
  "TAILQ_EMPTY q = (case q of [] \<Rightarrow> True | x # xs \<Rightarrow> False)"

definition TAILQ_INSERT_HEAD :: "'a list \<Rightarrow> 'a \<Rightarrow> 'a list" where
  "TAILQ_INSERT_HEAD q elm = elm # q"

definition TAILQ_REMOVE :: "'a list \<Rightarrow> nat \<Rightarrow> 'a list" where
  "TAILQ_REMOVE q elm = take elm q @ drop (Suc elm) q"

subsection \<open>icl_find\<close>

text \<open>
  The first loop of \<open>icl_find\<close>: \<open>im_max\<close> is the node with the highest priority so
  far, \<open>i\<close> the position of the node \<open>im\<close> the traversal is at.
\<close>

fun icl_find_max :: "'w icl_module list \<Rightarrow> nat \<Rightarrow> nat \<Rightarrow> 'w icl_module list \<Rightarrow> nat" where
  "icl_find_max q im_max i [] = im_max"
| "icl_find_max q im_max i (im # rest) =
     icl_find_max q (if im_priority im > im_priority (q ! im_max) then i else im_max)
       (Suc i) rest"

text \<open>The second loop: the first node whose name compares equal.\<close>

fun icl_find_name :: "nat \<Rightarrow> 'w icl_module list \<Rightarrow> string \<Rightarrow> nat option" where
  "icl_find_name i [] name = None"
| "icl_find_name i (im # rest) name =
     (if strcasecmp (im_name im) name = 0 then Some i
      else icl_find_name (Suc i) rest name)"

definition icl_find :: "'w icl_softc \<Rightarrow> string option \<Rightarrow> nat option" where
  "icl_find softc name =
     (let q = sc_modules softc;
          highest = (case TAILQ_FIRST q of
                       None \<Rightarrow> None
                     | Some first \<Rightarrow> Some (icl_find_max q first 0 q))
      in case name of
           None \<Rightarrow> highest
         | Some [] \<Rightarrow> highest
         | Some (c # cs) \<Rightarrow> icl_find_name 0 q (c # cs))"

subsection \<open>icl_new_conn and icl_limits\<close>

definition icl_new_conn ::
  "'w kern \<Rightarrow> string option \<Rightarrow> string option \<Rightarrow> addr option \<Rightarrow> addr option \<times> 'w kern" where
  "icl_new_conn s offload name lock =
     (case icl_find (sc s) offload of
        None \<Rightarrow> (None, ICL_WARN Not_found offload s)
      | Some im \<Rightarrow>
          (case im_new_conn (sc_modules (sc s) ! im) name lock (world s) of
             (ic, w) \<Rightarrow> (ic, s\<lparr>world := w\<rparr>)))"

text \<open>
  \<open>icl_limits\<close>: \<open>limit\<close> is the content of \<open>*limitp\<close> at the call; the result has the
  status and the content of \<open>*limitp\<close> at the return.
\<close>

definition icl_limits ::
  "'w kern \<Rightarrow> string option \<Rightarrow> nat \<Rightarrow> (int \<times> nat) \<times> 'w kern" where
  "icl_limits s offload limit =
     (case icl_find (sc s) offload of
        None \<Rightarrow> ((ENXIO, limit), ICL_WARN Not_found offload s)
      | Some im \<Rightarrow>
          (case im_limits (sc_modules (sc s) ! im) limit (world s) of
             (r, w) \<Rightarrow> (r, s\<lparr>world := w\<rparr>)))"

subsection \<open>icl_register and icl_unregister\<close>

text \<open>
  \<open>icl_register\<close> gets the zeroed storage of the record first and writes its fields
  afterwards; the live allocations name a storage by what it holds, so the embedding
  enters the storage of the record once \<open>strdup\<close> has given the name, with the fields
  the record has when it goes into the queue.
\<close>

definition icl_register ::
  "'w kern \<Rightarrow> string option \<Rightarrow> int \<Rightarrow> 'w limits_fn \<Rightarrow> 'w new_conn_fn \<Rightarrow>
   panic + (int \<times> 'w kern)" where
  "icl_register s offload priority limits new_conn =
     (case icl_find (sc s) offload of
        Some im \<Rightarrow> Inr (EBUSY, ICL_WARN Already_registered offload s)
      | None \<Rightarrow>
          (case strdup offload s of
             Inl p \<Rightarrow> Inl p
           | Inr (name, s1) \<Rightarrow>
               (let im = \<lparr>im_name = name, im_priority = priority,
                          im_limits = limits, im_new_conn = new_conn\<rparr>;
                    s2 = malloc (Module_storage im) s1
                in Inr (0, ICL_DEBUG Registered offload
                     (s2\<lparr>sc := (sc s2)\<lparr>sc_modules :=
                        TAILQ_INSERT_HEAD (sc_modules (sc s2)) im\<rparr>\<rparr>)))))"

definition icl_unregister :: "'w kern \<Rightarrow> string option \<Rightarrow> int \<times> 'w kern" where
  "icl_unregister s offload =
     (case icl_find (sc s) offload of
        None \<Rightarrow> (ENXIO, ICL_WARN Not_registered offload s)
      | Some im \<Rightarrow>
          (let node = sc_modules (sc s) ! im;
               s1 = s\<lparr>sc := (sc s)\<lparr>sc_modules := TAILQ_REMOVE (sc_modules (sc s)) im\<rparr>\<rparr>;
               s2 = free (Name_string (im_name node)) s1;
               s3 = free (Module_storage node) s2
           in (0, ICL_DEBUG Unregistered offload s3)))"

subsection \<open>sysctl_kern_icl_drivers\<close>

text \<open>
  The \<open>sbuf\<close> is the string written so far; \<open>sbuf_putc\<close> and \<open>sbuf_printf\<close> with
  \<open>%s\<close> append to it. The handler hands the finished text to \<open>SYSCTL_OUT\<close>; the
  embedding returns that text.
\<close>

definition sbuf_putc :: "string \<Rightarrow> char \<Rightarrow> string" where
  "sbuf_putc sb c = sb @ [c]"

definition sbuf_printf :: "string \<Rightarrow> string \<Rightarrow> string" where
  "sbuf_printf sb str = sb @ str"

fun icl_drivers_loop :: "'w icl_module list \<Rightarrow> nat \<Rightarrow> 'w icl_module list \<Rightarrow> string \<Rightarrow> string" where
  "icl_drivers_loop q i [] sb = sb"
| "icl_drivers_loop q i (im # rest) sb =
     icl_drivers_loop q (Suc i) rest
       (sbuf_printf (if Some i \<noteq> TAILQ_FIRST q then sbuf_putc sb CHR '' '' else sb)
          (im_name im))"

definition sysctl_kern_icl_drivers :: "'w kern \<Rightarrow> string" where
  "sysctl_kern_icl_drivers s =
     icl_drivers_loop (sc_modules (sc s)) 0 (sc_modules (sc s)) []"

subsection \<open>icl_load and icl_unload\<close>

definition icl_load :: "'w kern \<Rightarrow> int \<times> 'w kern" where
  "icl_load s = (0, (malloc Softc_storage s)\<lparr>sc := \<lparr>sc_modules = []\<rparr>\<rparr>)"

definition icl_unload :: "'w kern \<Rightarrow> panic + (int \<times> 'w kern)" where
  "icl_unload s =
     (case KASSERT (TAILQ_EMPTY (sc_modules (sc s))) ''still have modules'' of
        Inl p \<Rightarrow> Inl p
      | Inr u \<Rightarrow> Inr (0, free Softc_storage s))"

subsection \<open>Sequences of calls\<close>

text \<open>
  The drivers use the registry through \<open>icl_register\<close> and \<open>icl_unregister\<close>. A
  history is a list of such calls; \<open>icl_run\<close> makes them one after the other and
  collects the status of each. A panic ends the run.
\<close>

datatype 'w icl_call =
  Register "string option" int "'w limits_fn" "'w new_conn_fn"
| Unregister "string option"

fun icl_exec :: "'w kern \<Rightarrow> 'w icl_call \<Rightarrow> panic + (int \<times> 'w kern)" where
  "icl_exec s (Register offload priority limits new_conn) =
     icl_register s offload priority limits new_conn"
| "icl_exec s (Unregister offload) = Inr (icl_unregister s offload)"

fun icl_run :: "'w kern \<Rightarrow> 'w icl_call list \<Rightarrow> panic + (int list \<times> 'w kern)" where
  "icl_run s [] = Inr ([], s)"
| "icl_run s (c # cs) =
     (case icl_exec s c of
        Inl p \<Rightarrow> Inl p
      | Inr (rc, s') \<Rightarrow>
          (case icl_run s' cs of
             Inl p \<Rightarrow> Inl p
           | Inr (rcs, s'') \<Rightarrow> Inr (rc # rcs, s'')))"

text \<open>The calls of a history that returned 0, by kind.\<close>

fun is_register :: "'w icl_call \<Rightarrow> bool" where
  "is_register (Register offload priority limits new_conn) = True"
| "is_register (Unregister offload) = False"

fun registered_ok :: "'w icl_call list \<Rightarrow> int list \<Rightarrow> nat" where
  "registered_ok (c # cs) (rc # rcs) =
     (if is_register c \<and> rc = 0 then 1 else 0) + registered_ok cs rcs"
| "registered_ok cs rcs = 0"

fun unregistered_ok :: "'w icl_call list \<Rightarrow> int list \<Rightarrow> nat" where
  "unregistered_ok (c # cs) (rc # rcs) =
     (if \<not> is_register c \<and> rc = 0 then 1 else 0) + unregistered_ok cs rcs"
| "unregistered_ok cs rcs = 0"

subsection \<open>Properties the claims are stated with\<close>

text \<open>Two names are the same driver name when \<open>strcasecmp\<close> says so.\<close>

definition name_matches :: "string \<Rightarrow> 'w icl_module \<Rightarrow> bool" where
  "name_matches name im = (strcasecmp (im_name im) name = 0)"

text \<open>
  What \<open>strcasecmp\<close> looks at in a name: the characters before the first NUL,
  folded to lower case.
\<close>

definition ci_key :: "string \<Rightarrow> nat list" where
  "ci_key str = map tolower (takeWhile (\<lambda>c. of_char c \<noteq> (0 :: nat)) str)"

text \<open>No two records of the queue have names that compare equal.\<close>

fun names_unique :: "'w icl_module list \<Rightarrow> bool" where
  "names_unique [] = True"
| "names_unique (im # rest) =
     (list_all (\<lambda>im'. \<not> name_matches (im_name im) im') rest \<and> names_unique rest)"

text \<open>
  The listing as the spec words it: the names in traversal order, a single space
  between two neighbours, nothing before the first and nothing after the last.
\<close>

fun join_names :: "string list \<Rightarrow> string" where
  "join_names [] = []"
| "join_names [n] = n"
| "join_names (n # m # ns) = n @ '' '' @ join_names (m # ns)"

subsection \<open>Sample drivers and states for the concrete instances\<close>

text \<open>
  For the instances the outside world is the list of the callback invocations made so
  far: every sample callback appends the arguments it was called with.
\<close>

datatype event =
  Limits_called string nat
| New_conn_called string "string option" "addr option"

definition drv_limits :: "string \<Rightarrow> int \<Rightarrow> nat \<Rightarrow> event list limits_fn" where
  "drv_limits tag error v = (\<lambda>limit w. ((error, v), w @ [Limits_called tag limit]))"

definition drv_new_conn :: "string \<Rightarrow> addr option \<Rightarrow> event list new_conn_fn" where
  "drv_new_conn tag ic = (\<lambda>name lock w. (ic, w @ [New_conn_called tag name lock]))"

definition drv :: "string \<Rightarrow> int \<Rightarrow> event list icl_module" where
  "drv tag priority =
     \<lparr>im_name = tag, im_priority = priority,
      im_limits = drv_limits tag 0 131072, im_new_conn = drv_new_conn tag (Some 4096)\<rparr>"

text \<open>
  A loaded registry that holds the records \<open>q\<close>: the live allocations are the
  storage and the name of every record and the softc.
\<close>

definition kern_with :: "event list icl_module list \<Rightarrow> event list kern" where
  "kern_with q =
     \<lparr>sc = \<lparr>sc_modules = q\<rparr>, msgbuf = [],
      m_icl = concat (map (\<lambda>im. [Module_storage im, Name_string (im_name im)]) q) @
              [Softc_storage],
      world = []\<rparr>"

section \<open>Verification\<close>

subsection \<open>The two loops of icl_find\<close>

lemma icl_find_max_inv:
  assumes "rest = drop i q" and "im_max < length q" and "im_max \<le> i"
    and "\<forall>j<i. im_priority (q ! j) \<le> im_priority (q ! im_max)"
    and "\<forall>j<im_max. im_priority (q ! j) < im_priority (q ! im_max)"
  shows "icl_find_max q im_max i rest < length q \<and>
         (\<forall>j<length q. im_priority (q ! j) \<le> im_priority (q ! icl_find_max q im_max i rest)) \<and>
         (\<forall>j<icl_find_max q im_max i rest.
            im_priority (q ! j) < im_priority (q ! icl_find_max q im_max i rest))"
  using assms
proof (induction rest arbitrary: i im_max)
  case Nil
  then have "length q \<le> i" by simp
  with Nil show ?case by auto
next
  case (Cons im rest)
  from Cons.prems(1) have i: "i < length q"
    by (metis drop_all list.distinct(1) not_le)
  with Cons.prems(1) have im: "im = q ! i" and rest: "rest = drop (Suc i) q"
    by (simp_all add: Cons_nth_drop_Suc [symmetric])
  let ?m = "if im_priority im > im_priority (q ! im_max) then i else im_max"
  have 1: "?m < length q" using i Cons.prems(2) by simp
  have 2: "?m \<le> Suc i" using Cons.prems(3) by simp
  have 3: "\<forall>j<Suc i. im_priority (q ! j) \<le> im_priority (q ! ?m)"
    using Cons.prems(4) im by (auto simp: less_Suc_eq) 
  have 4: "\<forall>j<?m. im_priority (q ! j) < im_priority (q ! ?m)"
    using Cons.prems(4,5) im by auto
  from Cons.IH [OF rest 1 2 3 4] show ?case by simp
qed

lemma icl_find_name_None:
  "(icl_find_name i q name = None) = (\<forall>im\<in>set q. strcasecmp (im_name im) name \<noteq> 0)"
  by (induction q arbitrary: i) auto

lemma icl_find_name_Some:
  "icl_find_name i q name = Some k \<Longrightarrow>
     i \<le> k \<and> k - i < length q \<and> strcasecmp (im_name (q ! (k - i))) name = 0 \<and>
     (\<forall>j<k - i. strcasecmp (im_name (q ! j)) name \<noteq> 0)"
proof (induction q arbitrary: i)
  case Nil
  then show ?case by simp
next
  case (Cons im q)
  show ?case
  proof (cases "strcasecmp (im_name im) name = 0")
    case True
    with Cons.prems show ?thesis by simp
  next
    case False
    with Cons.prems have "icl_find_name (Suc i) q name = Some k" by simp
    from Cons.IH [OF this] have k: "Suc i \<le> k" "k - Suc i < length q"
      "strcasecmp (im_name (q ! (k - Suc i))) name = 0"
      "\<forall>j<k - Suc i. strcasecmp (im_name (q ! j)) name \<noteq> 0" by auto
    from k(1) have e: "k - i = Suc (k - Suc i)" by simp
    show ?thesis using k False unfolding e by (auto simp: less_Suc_eq_0_disj)
  qed
qed

lemma icl_find_name_priority:
  "icl_find_name i (map (\<lambda>im. im\<lparr>im_priority := f im\<rparr>) q) name = icl_find_name i q name"
  by (induction q arbitrary: i) auto


lemma TAILQ_FIRST_simps [simp]:
  "TAILQ_FIRST [] = None" "TAILQ_FIRST (x # xs) = Some 0"
  by (simp_all add: TAILQ_FIRST_def)

lemma icl_find_unnamed_eq:
  "name = None \<or> name = Some [] \<Longrightarrow>
   icl_find softc name =
     (case sc_modules softc of [] \<Rightarrow> None
      | im # rest \<Rightarrow> Some (icl_find_max (sc_modules softc) 0 0 (sc_modules softc)))"
  by (auto simp: icl_find_def Let_def split: list.splits)

lemma icl_find_named_eq:
  "name \<noteq> [] \<Longrightarrow> icl_find softc (Some name) = icl_find_name 0 (sc_modules softc) name"
  by (cases name) (simp_all add: icl_find_def Let_def)

lemma icl_find_max_first:
  assumes "q \<noteq> []"
  shows "icl_find_max q 0 0 q < length q \<and>
         (\<forall>j<length q. im_priority (q ! j) \<le> im_priority (q ! icl_find_max q 0 0 q)) \<and>
         (\<forall>j<icl_find_max q 0 0 q.
            im_priority (q ! j) < im_priority (q ! icl_find_max q 0 0 q))"
  using assms by (intro icl_find_max_inv) simp_all

lemma icl_register_Some:
  "icl_find (sc s) (Some name) \<noteq> None \<Longrightarrow>
   icl_register s (Some name) priority limits new_conn =
     Inr (EBUSY, s\<lparr>msgbuf := msgbuf s @ [Warning Already_registered (Some name)]\<rparr>)"
  by (auto simp: icl_register_def ICL_WARN_def)

lemma icl_register_None:
  "icl_find (sc s) (Some name) = None \<Longrightarrow>
   icl_register s (Some name) priority limits new_conn =
     Inr (0, s\<lparr>sc := \<lparr>sc_modules =
                 \<lparr>im_name = name, im_priority = priority,
                  im_limits = limits, im_new_conn = new_conn\<rparr> # sc_modules (sc s)\<rparr>,
               msgbuf := msgbuf s @ [Debug Registered (Some name)],
               m_icl := Module_storage
                          \<lparr>im_name = name, im_priority = priority,
                           im_limits = limits, im_new_conn = new_conn\<rparr> #
                        Name_string name # m_icl s\<rparr>)"
  by (simp add: icl_register_def ICL_DEBUG_def strdup_def malloc_def Let_def
      TAILQ_INSERT_HEAD_def)

text \<open>
  Claim C1. Resolving with an absent (\<open>NULL\<close>) or empty driver name gives \<open>NULL\<close> on an
  empty registry. On a non-empty registry it gives a record whose priority no other
  record exceeds, and every record before it in traversal order has a strictly lower
  priority: the first of those that share the maximum. Registration inserts at the
  head, so that first one is the most recently registered: right after a successful
  registration with a priority that no older record exceeds, the result is the new
  record.
\<close>
theorem icl_find_unnamed:
  fixes s :: "'w kern"
  assumes "name = None \<or> name = Some []"
  shows "(sc_modules (sc s) = [] \<longrightarrow> icl_find (sc s) name = None) \<and>
         (sc_modules (sc s) \<noteq> [] \<longrightarrow>
            (\<exists>i. icl_find (sc s) name = Some i \<and> i < length (sc_modules (sc s)) \<and>
               (\<forall>j<length (sc_modules (sc s)).
                  im_priority (sc_modules (sc s) ! j) \<le> im_priority (sc_modules (sc s) ! i)) \<and>
               (\<forall>j<i. im_priority (sc_modules (sc s) ! j) < im_priority (sc_modules (sc s) ! i)))) \<and>
         (\<forall>new priority limits new_conn s'.
            icl_register s (Some new) priority limits new_conn = Inr (0, s') \<and>
            (\<forall>im\<in>set (sc_modules (sc s)). im_priority im \<le> priority) \<longrightarrow>
            icl_find (sc s') name = Some 0 \<and>
            sc_modules (sc s') ! 0 =
              \<lparr>im_name = new, im_priority = priority,
               im_limits = limits, im_new_conn = new_conn\<rparr>)"
proof (intro conjI impI allI)
  assume "sc_modules (sc s) = []"
  then show "icl_find (sc s) name = None"
    using assms by (simp add: icl_find_unnamed_eq)
next
  assume ne: "sc_modules (sc s) \<noteq> []"
  then have "icl_find (sc s) name = Some (icl_find_max (sc_modules (sc s)) 0 0 (sc_modules (sc s)))"
    using assms by (simp add: icl_find_unnamed_eq split: list.splits)
  with icl_find_max_first [OF ne]
  show "\<exists>i. icl_find (sc s) name = Some i \<and> i < length (sc_modules (sc s)) \<and>
          (\<forall>j<length (sc_modules (sc s)).
             im_priority (sc_modules (sc s) ! j) \<le> im_priority (sc_modules (sc s) ! i)) \<and>
          (\<forall>j<i. im_priority (sc_modules (sc s) ! j) < im_priority (sc_modules (sc s) ! i))"
    by blast
next
  fix new priority limits new_conn s'
  assume a: "icl_register s (Some new) priority limits new_conn = Inr (0, s') \<and>
             (\<forall>im\<in>set (sc_modules (sc s)). im_priority im \<le> priority)"
  let ?im = "\<lparr>im_name = new, im_priority = priority,
               im_limits = limits, im_new_conn = new_conn\<rparr>"
  have "icl_find (sc s) (Some new) = None"
  proof (rule ccontr)
    assume "icl_find (sc s) (Some new) \<noteq> None"
    from icl_register_Some [OF this] a show False by (simp add: EBUSY_def)
  qed
  from icl_register_None [OF this] a
  have q': "sc_modules (sc s') = ?im # sc_modules (sc s)" by auto
  then have ne: "sc_modules (sc s') \<noteq> []" by simp
  let ?r = "icl_find_max (sc_modules (sc s')) 0 0 (sc_modules (sc s'))"
  have r: "icl_find (sc s') name = Some ?r"
    using assms ne by (simp add: icl_find_unnamed_eq split: list.splits)
  have "?r = 0"
  proof (rule ccontr)
    assume "?r \<noteq> 0"
    then have pos: "0 < ?r" by simp
    with icl_find_max_first [OF ne]
    have lt: "im_priority (sc_modules (sc s') ! 0) < im_priority (sc_modules (sc s') ! ?r)"
      and len: "?r < length (sc_modules (sc s'))" by blast+
    from pos len have "sc_modules (sc s') ! ?r \<in> set (sc_modules (sc s))"
      unfolding q' by (cases ?r) simp_all
    with a have "im_priority (sc_modules (sc s') ! ?r) \<le> priority" by blast
    with lt show False unfolding q' by simp
  qed
  with r q' show "icl_find (sc s') name = Some 0" 
    and "sc_modules (sc s') ! 0 = ?im" by simp_all
qed


theorem icl_find_unnamed_witness:
  "(Some [] = None \<or> Some [] = Some ([] :: string)) \<and>
   sc_modules (sc (kern_with [drv ''A'' 5])) \<noteq> [] \<and>
   icl_register (kern_with [drv ''A'' 5]) (Some ''B'') 5
     (drv_limits ''B'' 0 131072) (drv_new_conn ''B'' (Some 4096)) =
     Inr (0, (kern_with [drv ''B'' 5, drv ''A'' 5])\<lparr>msgbuf := [Debug Registered (Some ''B'')]\<rparr>) \<and>
   list_all (\<lambda>im. im_priority im \<le> 5) (sc_modules (sc (kern_with [drv ''A'' 5]))) \<and>
   icl_find (sc (kern_with [drv ''A'' 5])) (Some []) = Some 0 \<and>
   icl_find (sc (kern_with [drv ''B'' 5, drv ''A'' 5])) (Some []) = Some 0 \<and>
   im_name (sc_modules (sc (kern_with [drv ''B'' 5, drv ''A'' 5])) ! 0) = ''B''"
  using icl_find_unnamed [of "Some []" "kern_with [drv ''A'' 5]"]
  by (simp add: kern_with_def drv_def icl_register_def icl_find_def tolower_def strdup_def malloc_def free_def Let_def
      ICL_DEBUG_def TAILQ_INSERT_HEAD_def)

lemma name_matches_find:
  "(icl_find_name i q name = None) = (\<forall>im\<in>set q. \<not> name_matches name im)"
  by (simp add: icl_find_name_None name_matches_def)

text \<open>
  Claim C3. Resolving with a non-empty name gives \<open>NULL\<close> when no record's name
  compares equal without regard to case; otherwise it gives the first record in
  traversal order whose name does. The priorities play no part: replacing them by
  any others leaves the result the same.
\<close>
theorem icl_find_named:
  assumes "name \<noteq> []"
  shows "((\<forall>im\<in>set (sc_modules softc). \<not> name_matches name im) \<longrightarrow>
            icl_find softc (Some name) = None) \<and>
         ((\<exists>im\<in>set (sc_modules softc). name_matches name im) \<longrightarrow>
            (\<exists>i. icl_find softc (Some name) = Some i \<and> i < length (sc_modules softc) \<and>
               name_matches name (sc_modules softc ! i) \<and>
               (\<forall>j<i. \<not> name_matches name (sc_modules softc ! j)))) \<and>
         icl_find (softc\<lparr>sc_modules := map (\<lambda>im. im\<lparr>im_priority := f im\<rparr>) (sc_modules softc)\<rparr>)
            (Some name) = icl_find softc (Some name)"
proof -
  note eq = icl_find_named_eq [OF assms]
  have A: "(\<forall>im\<in>set (sc_modules softc). \<not> name_matches name im) \<longrightarrow>
            icl_find softc (Some name) = None"
    by (simp add: eq name_matches_find)
  have B: "(\<exists>im\<in>set (sc_modules softc). name_matches name im) \<longrightarrow>
            (\<exists>i. icl_find softc (Some name) = Some i \<and> i < length (sc_modules softc) \<and>
               name_matches name (sc_modules softc ! i) \<and>
               (\<forall>j<i. \<not> name_matches name (sc_modules softc ! j)))"
  proof
    assume "\<exists>im\<in>set (sc_modules softc). name_matches name im"
    then have "icl_find_name 0 (sc_modules softc) name \<noteq> None"
      by (simp add: name_matches_find)
    then obtain k where k: "icl_find_name 0 (sc_modules softc) name = Some k" by blast
    from icl_find_name_Some [OF k] k show
      "\<exists>i. icl_find softc (Some name) = Some i \<and> i < length (sc_modules softc) \<and>
               name_matches name (sc_modules softc ! i) \<and>
               (\<forall>j<i. \<not> name_matches name (sc_modules softc ! j))"
      by (simp add: eq name_matches_def)
  qed
  have C: "icl_find (softc\<lparr>sc_modules := map (\<lambda>im. im\<lparr>im_priority := f im\<rparr>) (sc_modules softc)\<rparr>)
            (Some name) = icl_find softc (Some name)"
    by (simp add: eq icl_find_named_eq [OF assms] icl_find_name_priority)
  from A B C show ?thesis by blast
qed

theorem icl_find_named_witness:
  "''a'' \<noteq> [] \<and> ''x'' \<noteq> [] \<and>
   (\<exists>im\<in>set (sc_modules (sc (kern_with [drv ''B'' 5, drv ''A'' 1]))). name_matches ''a'' im) \<and>
   list_all (\<lambda>im. \<not> name_matches ''x'' im) (sc_modules (sc (kern_with [drv ''B'' 5, drv ''A'' 1]))) \<and>
   icl_find (sc (kern_with [drv ''B'' 5, drv ''A'' 1])) (Some ''a'') = Some 1 \<and>
   icl_find (sc (kern_with [drv ''B'' 5, drv ''A'' 1])) (Some ''x'') = None \<and>
   im_name (sc_modules (sc (kern_with [drv ''B'' 5, drv ''A'' 1])) ! 1) = ''A''"
  using icl_find_named [of "''a''" "sc (kern_with [drv ''B'' 5, drv ''A'' 1])"]
    icl_find_named [of "''x''" "sc (kern_with [drv ''B'' 5, drv ''A'' 1])"]
  by (simp add: kern_with_def drv_def icl_find_def tolower_def name_matches_def)

lemma strcasecmp_refl: "strcasecmp a a = 0"
  by (induction a) auto

lemma strcasecmp_sym: "(strcasecmp a b = 0) = (strcasecmp b a = 0)"
  by (induction a b rule: strcasecmp.induct) (auto simp: tolower_def Let_def split: if_splits)

text \<open>
  Claim C2, with the success half for a name that is not empty or a registry that is
  empty. When a record of the registry has a name that compares equal to the given
  one without regard to case, \<open>icl_register\<close> returns \<open>EBUSY\<close> and changes nothing
  but the message buffer, which gets a warning. When there is none, and the name is
  not empty or the registry is empty, it returns 0 and the new record, with the given
  name, priority and callbacks, is the head of the queue, in front of the unchanged
  older records, where a lookup of its name finds it first; its storage and the copy
  of its name are two more live allocations.
\<close>
theorem icl_register_named:
  fixes s :: "'w kern"
  shows "((\<exists>im\<in>set (sc_modules (sc s)). name_matches name im) \<longrightarrow>
            icl_register s (Some name) priority limits new_conn =
              Inr (EBUSY, s\<lparr>msgbuf := msgbuf s @ [Warning Already_registered (Some name)]\<rparr>)) \<and>
         ((\<forall>im\<in>set (sc_modules (sc s)). \<not> name_matches name im) \<and>
          (name \<noteq> [] \<or> sc_modules (sc s) = []) \<longrightarrow>
            (\<exists>s'. icl_register s (Some name) priority limits new_conn = Inr (0, s') \<and>
               s' = s\<lparr>sc := \<lparr>sc_modules =
                         \<lparr>im_name = name, im_priority = priority,
                          im_limits = limits, im_new_conn = new_conn\<rparr> # sc_modules (sc s)\<rparr>,
                       msgbuf := msgbuf s @ [Debug Registered (Some name)],
                       m_icl := Module_storage
                                  \<lparr>im_name = name, im_priority = priority,
                                   im_limits = limits, im_new_conn = new_conn\<rparr> #
                                Name_string name # m_icl s\<rparr> \<and>
               icl_find (sc s') (Some name) = Some 0))"
proof (intro conjI impI)
  assume m: "\<exists>im\<in>set (sc_modules (sc s)). name_matches name im"
  have "icl_find (sc s) (Some name) \<noteq> None"
  proof (cases "name = []")
    case True
    from m have "sc_modules (sc s) \<noteq> []" by auto
    with True show ?thesis by (simp add: icl_find_unnamed_eq split: list.splits)
  next
    case False
    with m show ?thesis by (simp add: icl_find_named_eq name_matches_find)
  qed
  then show "icl_register s (Some name) priority limits new_conn =
              Inr (EBUSY, s\<lparr>msgbuf := msgbuf s @ [Warning Already_registered (Some name)]\<rparr>)"
    by (rule icl_register_Some)
next
  assume a: "(\<forall>im\<in>set (sc_modules (sc s)). \<not> name_matches name im) \<and>
             (name \<noteq> [] \<or> sc_modules (sc s) = [])"
  let ?s' = "s\<lparr>sc := \<lparr>sc_modules =
                         \<lparr>im_name = name, im_priority = priority,
                          im_limits = limits, im_new_conn = new_conn\<rparr> # sc_modules (sc s)\<rparr>,
                       msgbuf := msgbuf s @ [Debug Registered (Some name)],
                       m_icl := Module_storage
                                  \<lparr>im_name = name, im_priority = priority,
                                   im_limits = limits, im_new_conn = new_conn\<rparr> #
                                Name_string name # m_icl s\<rparr>"
  have none: "icl_find (sc s) (Some name) = None"
  proof (cases "name = []")
    case True
    with a show ?thesis by (simp add: icl_find_unnamed_eq)
  next
    case False
    with a show ?thesis by (simp add: icl_find_named_eq name_matches_find)
  qed
  have first: "icl_find (sc ?s') (Some name) = Some 0"
  proof (cases "name = []")
    case True
    with a show ?thesis by (simp add: icl_find_unnamed_eq)
  next
    case False
    then show ?thesis by (simp add: icl_find_named_eq strcasecmp_refl)
  qed
  from icl_register_None [OF none] first
  show "\<exists>s'. icl_register s (Some name) priority limits new_conn = Inr (0, s') \<and>
               s' = ?s' \<and> icl_find (sc s') (Some name) = Some 0"
    by simp
qed

theorem icl_register_named_witness:
  "(\<exists>im\<in>set (sc_modules (sc (kern_with [drv ''iser'' 5]))). name_matches ''ISER'' im) \<and>
   icl_register (kern_with [drv ''iser'' 5]) (Some ''ISER'') 9
      (drv_limits ''ISER'' 0 1) (drv_new_conn ''ISER'' None) =
     Inr (EBUSY, (kern_with [drv ''iser'' 5])
                   \<lparr>msgbuf := [Warning Already_registered (Some ''ISER'')]\<rparr>) \<and>
   list_all (\<lambda>im. \<not> name_matches ''none'' im) (sc_modules (sc (kern_with [drv ''iser'' 5]))) \<and>
   ''none'' \<noteq> [] \<and>
   icl_register (kern_with [drv ''iser'' 5]) (Some ''none'') 0
      (drv_limits ''none'' 0 131072) (drv_new_conn ''none'' (Some 4096)) =
     Inr (0, (kern_with [drv ''none'' 0, drv ''iser'' 5])
               \<lparr>msgbuf := [Debug Registered (Some ''none'')]\<rparr>)"
  using icl_register_named [of "kern_with [drv ''iser'' 5]" "''ISER''" 9
      "drv_limits ''ISER'' 0 1" "drv_new_conn ''ISER'' None"]
    icl_register_named [of "kern_with [drv ''iser'' 5]" "''none''" 0
      "drv_limits ''none'' 0 131072" "drv_new_conn ''none'' (Some 4096)"]
  by (simp add: kern_with_def drv_def name_matches_def tolower_def)

text \<open>
  Without that condition the success half fails: the registry holds one record, named
  \<open>iser\<close>, the empty name compares equal to no name in it, and \<open>icl_register\<close> with
  the empty name returns \<open>EBUSY\<close>, not 0, and inserts nothing.
\<close>

theorem icl_register_counterexample:
  "sc_modules (sc (kern_with [drv ''iser'' 5])) = [drv ''iser'' 5] \<and>
   \<not> name_matches [] (drv ''iser'' 5) \<and>
   icl_register (kern_with [drv ''iser'' 5]) (Some []) 9
      (drv_limits [] 0 131072) (drv_new_conn [] (Some 4096)) =
     Inr (EBUSY, (kern_with [drv ''iser'' 5])\<lparr>msgbuf := [Warning Already_registered (Some [])]\<rparr>) \<and>
   EBUSY \<noteq> 0"
  by (simp add: kern_with_def drv_def name_matches_def tolower_def icl_register_def
      icl_find_def ICL_WARN_def EBUSY_def)

text \<open>
  Claim C10. \<open>icl_register\<close> does not reject the empty name. On a non-empty registry
  it returns \<open>EBUSY\<close> and leaves the registry as it is, whatever the names in it,
  since \<open>icl_find\<close> then picks the record of highest priority. On an empty registry
  it returns 0 and the registry holds one record, whose name is the empty string
  (with its storage and the copy of its name as two more live allocations).
\<close>
theorem icl_register_empty_name:
  fixes s :: "'w kern"
  shows "(sc_modules (sc s) \<noteq> [] \<longrightarrow> icl_find (sc s) (Some []) \<noteq> None) \<and>
         (sc_modules (sc s) \<noteq> [] \<longrightarrow>
            icl_register s (Some []) priority limits new_conn =
              Inr (EBUSY, s\<lparr>msgbuf := msgbuf s @ [Warning Already_registered (Some [])]\<rparr>)) \<and>
         (sc_modules (sc s) = [] \<longrightarrow>
            icl_register s (Some []) priority limits new_conn =
              Inr (0, s\<lparr>sc := \<lparr>sc_modules =
                         [\<lparr>im_name = [], im_priority = priority,
                           im_limits = limits, im_new_conn = new_conn\<rparr>]\<rparr>,
                       msgbuf := msgbuf s @ [Debug Registered (Some [])],
                       m_icl := Module_storage
                                  \<lparr>im_name = [], im_priority = priority,
                                   im_limits = limits, im_new_conn = new_conn\<rparr> #
                                Name_string [] # m_icl s\<rparr>))"
proof (intro conjI impI)
  assume "sc_modules (sc s) \<noteq> []"
  then show "icl_find (sc s) (Some []) \<noteq> None"
    by (simp add: icl_find_unnamed_eq split: list.splits)
next
  assume "sc_modules (sc s) \<noteq> []"
  then have "icl_find (sc s) (Some []) \<noteq> None"
    by (simp add: icl_find_unnamed_eq split: list.splits)
  then show "icl_register s (Some []) priority limits new_conn =
              Inr (EBUSY, s\<lparr>msgbuf := msgbuf s @ [Warning Already_registered (Some [])]\<rparr>)"
    by (rule icl_register_Some)
next
  assume e: "sc_modules (sc s) = []"
  then have "icl_find (sc s) (Some []) = None"
    by (simp add: icl_find_unnamed_eq)
  from icl_register_None [OF this] e
  show "icl_register s (Some []) priority limits new_conn =
              Inr (0, s\<lparr>sc := \<lparr>sc_modules =
                         [\<lparr>im_name = [], im_priority = priority,
                           im_limits = limits, im_new_conn = new_conn\<rparr>]\<rparr>,
                       msgbuf := msgbuf s @ [Debug Registered (Some [])],
                       m_icl := Module_storage
                                  \<lparr>im_name = [], im_priority = priority,
                                   im_limits = limits, im_new_conn = new_conn\<rparr> #
                                Name_string [] # m_icl s\<rparr>)"
    by simp
qed

theorem icl_register_empty_name_witness:
  "sc_modules (sc (kern_with [drv ''iser'' 5])) \<noteq> [] \<and>
   list_all (\<lambda>im. im_name im \<noteq> []) (sc_modules (sc (kern_with [drv ''iser'' 5]))) \<and>
   list_all (\<lambda>im. \<not> name_matches [] im) (sc_modules (sc (kern_with [drv ''iser'' 5]))) \<and>
   icl_register (kern_with [drv ''iser'' 5]) (Some []) 9
      (drv_limits [] 0 1) (drv_new_conn [] None) =
     Inr (EBUSY, (kern_with [drv ''iser'' 5])\<lparr>msgbuf := [Warning Already_registered (Some [])]\<rparr>) \<and>
   sc_modules (sc (kern_with [])) = [] \<and>
   icl_register (kern_with []) (Some []) 9 (drv_limits [] 0 131072) (drv_new_conn [] (Some 4096)) =
     Inr (0, (kern_with [drv [] 9])\<lparr>msgbuf := [Debug Registered (Some [])]\<rparr>)"
  using icl_register_empty_name [of "kern_with [drv ''iser'' 5]" 9
      "drv_limits [] 0 1" "drv_new_conn [] None"]
    icl_register_empty_name [of "kern_with []" 9
      "drv_limits [] 0 131072" "drv_new_conn [] (Some 4096)"]
  by (simp add: kern_with_def drv_def name_matches_def tolower_def)

subsection \<open>Names without regard to case\<close>

lemma tolower_0: "(tolower c = 0) = (of_char c = (0 :: nat))"
  by (simp add: tolower_def Let_def)

lemma tolower_eq_0:
  "tolower c1 = tolower c2 \<Longrightarrow> (of_char c1 = (0 :: nat)) = (of_char c2 = (0 :: nat))"
  by (metis tolower_0)

lemma strcasecmp_key: "(strcasecmp a b = 0) = (ci_key a = ci_key b)"
proof (induction a b rule: strcasecmp.induct)
  case 1
  show ?case by simp
next
  case (2 c2 s2)
  show ?case by (auto simp: ci_key_def tolower_0)
next
  case (3 c1 s1)
  show ?case by (auto simp: ci_key_def tolower_0)
next
  case (4 c1 s1 c2 s2)
  show ?case
  proof (cases "tolower c1 = tolower c2")
    case True
    note eq = True
    note z = tolower_eq_0 [OF eq]
    show ?thesis
    proof (cases "of_char c1 = (0 :: nat)")
      case True
      with z eq show ?thesis by (simp add: ci_key_def)
    next
      case False
      with z have "of_char c2 \<noteq> (0 :: nat)" by simp
      with False eq 4 show ?thesis by (simp add: ci_key_def)
    qed
  next
    case False
    then have "of_char c1 \<noteq> (0 :: nat) \<or> of_char c2 \<noteq> (0 :: nat)"
      by (metis tolower_0)
    with False show ?thesis by (auto simp: ci_key_def tolower_0)
  qed
qed

lemma name_matches_key: "name_matches name im = (ci_key (im_name im) = ci_key name)"
  by (simp add: name_matches_def strcasecmp_key)

lemma icl_find_less:
  assumes "icl_find softc name = Some i"
  shows "i < length (sc_modules softc)"
proof (cases "name = None \<or> name = Some []")
  case True
  with assms show ?thesis
    using icl_find_max_first [of "sc_modules softc"]
    by (auto simp: icl_find_unnamed_eq split: list.splits)
next
  case False
  then obtain n where n: "name = Some n" "n \<noteq> []" by auto
  with assms have "icl_find_name 0 (sc_modules softc) n = Some i"
    by (simp add: icl_find_named_eq)
  from icl_find_name_Some [OF this] show ?thesis by simp
qed

lemma icl_unregister_None:
  "icl_find (sc s) offload = None \<Longrightarrow>
   icl_unregister s offload = (ENXIO, s\<lparr>msgbuf := msgbuf s @ [Warning Not_registered offload]\<rparr>)"
  by (simp add: icl_unregister_def ICL_WARN_def)

lemma icl_unregister_Some:
  "icl_find (sc s) offload = Some i \<Longrightarrow>
   icl_unregister s offload =
     (0, s\<lparr>sc := \<lparr>sc_modules = take i (sc_modules (sc s)) @ drop (Suc i) (sc_modules (sc s))\<rparr>,
           msgbuf := msgbuf s @ [Debug Unregistered offload],
           m_icl := remove1 (Module_storage (sc_modules (sc s) ! i))
                      (remove1 (Name_string (im_name (sc_modules (sc s) ! i))) (m_icl s))\<rparr>)"
  by (simp add: icl_unregister_def ICL_DEBUG_def TAILQ_REMOVE_def free_def Let_def)

text \<open>
  Claim C4. When the offload name (or the absent or empty name) resolves to no driver,
  \<open>icl_new_conn\<close> returns \<open>NULL\<close>; the only change is the warning in the message
  buffer, so no callback ran. When it resolves to a driver, the result and the state
  of the outside world are those of one application of that driver's \<open>im_new_conn\<close>
  to the caller's connection name and lock, in the world as it was: the factory's
  result comes back as it is, \<open>NULL\<close> included, and nothing else changes.
\<close>
theorem icl_new_conn_dispatch:
  fixes s :: "'w kern"
  shows "(icl_find (sc s) offload = None \<longrightarrow>
            icl_new_conn s offload name lock =
              (None, s\<lparr>msgbuf := msgbuf s @ [Warning Not_found offload]\<rparr>)) \<and>
         (\<forall>im. icl_find (sc s) offload = Some im \<longrightarrow>
            icl_new_conn s offload name lock =
              (fst (im_new_conn (sc_modules (sc s) ! im) name lock (world s)),
               s\<lparr>world := snd (im_new_conn (sc_modules (sc s) ! im) name lock (world s))\<rparr>))"
  by (simp add: icl_new_conn_def ICL_WARN_def split: prod.splits)

theorem icl_new_conn_dispatch_witness:
  "icl_find (sc (kern_with [drv ''B'' 5, drv ''A'' 1])) (Some ''x'') = None \<and>
   icl_new_conn (kern_with [drv ''B'' 5, drv ''A'' 1]) (Some ''x'') (Some ''conn0'') (Some 77) =
     (None, (kern_with [drv ''B'' 5, drv ''A'' 1])\<lparr>msgbuf := [Warning Not_found (Some ''x'')]\<rparr>) \<and>
   icl_find (sc (kern_with [drv ''B'' 5, drv ''A'' 1])) (Some ''a'') = Some 1 \<and>
   icl_new_conn (kern_with [drv ''B'' 5, drv ''A'' 1]) (Some ''a'') (Some ''conn0'') (Some 77) =
     (Some 4096, (kern_with [drv ''B'' 5, drv ''A'' 1])
                   \<lparr>world := [New_conn_called ''A'' (Some ''conn0'') (Some 77)]\<rparr>) \<and>
   icl_find (sc (kern_with [drv ''B'' 5, drv ''A'' 1])) None = Some 0 \<and>
   icl_new_conn (kern_with [drv ''B'' 5, drv ''A'' 1]) None (Some ''conn1'') None =
     (Some 4096, (kern_with [drv ''B'' 5, drv ''A'' 1])
                   \<lparr>world := [New_conn_called ''B'' (Some ''conn1'') None]\<rparr>) \<and>
   icl_new_conn
     (kern_with [\<lparr>im_name = ''C'', im_priority = 0, im_limits = drv_limits ''C'' 0 1,
                  im_new_conn = drv_new_conn ''C'' None\<rparr>]) (Some ''c'') (Some ''conn2'') (Some 78) =
     (None, (kern_with [\<lparr>im_name = ''C'', im_priority = 0, im_limits = drv_limits ''C'' 0 1,
                  im_new_conn = drv_new_conn ''C'' None\<rparr>])
              \<lparr>world := [New_conn_called ''C'' (Some ''conn2'') (Some 78)]\<rparr>)"
  using icl_new_conn_dispatch [of "kern_with [drv ''B'' 5, drv ''A'' 1]" "Some ''x''" "Some ''conn0''" "Some 77"]
    icl_new_conn_dispatch [of "kern_with [drv ''B'' 5, drv ''A'' 1]" "Some ''a''" "Some ''conn0''" "Some 77"]
    icl_new_conn_dispatch [of "kern_with [drv ''B'' 5, drv ''A'' 1]" "None" "Some ''conn1''" "None"]
    icl_new_conn_dispatch [of "kern_with [\<lparr>im_name = ''C'', im_priority = 0, im_limits = drv_limits ''C'' 0 1,
                  im_new_conn = drv_new_conn ''C'' None\<rparr>]" "Some ''c''" "Some ''conn2''" "Some 78"]
  by (simp add: kern_with_def drv_def icl_find_def tolower_def drv_new_conn_def)

text \<open>
  Claim C5. When the offload name resolves to no driver, \<open>icl_limits\<close> returns
  \<open>ENXIO\<close>, leaves \<open>*limitp\<close> and the outside world as they were and logs a warning.
  When it resolves to a driver, the status, the content of \<open>*limitp\<close> and the state
  of the outside world are those of one application of that driver's \<open>im_limits\<close>.
\<close>
theorem icl_limits_dispatch:
  fixes s :: "'w kern"
  shows "(icl_find (sc s) offload = None \<longrightarrow>
            icl_limits s offload limit =
              ((ENXIO, limit), s\<lparr>msgbuf := msgbuf s @ [Warning Not_found offload]\<rparr>)) \<and>
         (\<forall>im. icl_find (sc s) offload = Some im \<longrightarrow>
            icl_limits s offload limit =
              (fst (im_limits (sc_modules (sc s) ! im) limit (world s)),
               s\<lparr>world := snd (im_limits (sc_modules (sc s) ! im) limit (world s))\<rparr>))"
  by (simp add: icl_limits_def ICL_WARN_def split: prod.splits)

theorem icl_limits_dispatch_witness:
  "icl_find (sc (kern_with [drv ''B'' 5, drv ''A'' 1])) (Some ''x'') = None \<and>
   icl_limits (kern_with [drv ''B'' 5, drv ''A'' 1]) (Some ''x'') 7 =
     ((ENXIO, 7), (kern_with [drv ''B'' 5, drv ''A'' 1])\<lparr>msgbuf := [Warning Not_found (Some ''x'')]\<rparr>) \<and>
   icl_find (sc (kern_with [drv ''B'' 5, drv ''A'' 1])) (Some ''a'') = Some 1 \<and>
   icl_limits (kern_with [drv ''B'' 5, drv ''A'' 1]) (Some ''a'') 7 =
     ((0, 131072), (kern_with [drv ''B'' 5, drv ''A'' 1])\<lparr>world := [Limits_called ''A'' 7]\<rparr>) \<and>
   icl_limits
     (kern_with [\<lparr>im_name = ''C'', im_priority = 0, im_limits = drv_limits ''C'' 22 9,
                  im_new_conn = drv_new_conn ''C'' None\<rparr>]) None 7 =
     ((22, 9), (kern_with [\<lparr>im_name = ''C'', im_priority = 0, im_limits = drv_limits ''C'' 22 9,
                  im_new_conn = drv_new_conn ''C'' None\<rparr>])\<lparr>world := [Limits_called ''C'' 7]\<rparr>)"
  using icl_limits_dispatch [of "kern_with [drv ''B'' 5, drv ''A'' 1]" "Some ''x''" 7]
    icl_limits_dispatch [of "kern_with [drv ''B'' 5, drv ''A'' 1]" "Some ''a''" 7]
    icl_limits_dispatch [of "kern_with [\<lparr>im_name = ''C'', im_priority = 0, im_limits = drv_limits ''C'' 22 9,
                  im_new_conn = drv_new_conn ''C'' None\<rparr>]" None 7]
  by (simp add: kern_with_def drv_def icl_find_def tolower_def drv_limits_def)

subsection \<open>Removal\<close>

lemma names_unique_keys: "names_unique q = distinct (map (\<lambda>im. ci_key (im_name im)) q)"
proof (induction q)
  case Nil
  show ?case by simp
next
  case (Cons im q)
  have "list_all (\<lambda>im'. \<not> name_matches (im_name im) im') q =
        (ci_key (im_name im) \<notin> set (map (\<lambda>im. ci_key (im_name im)) q))"
    unfolding list_all_iff name_matches_key set_map image_iff by metis
  with Cons show ?case by simp
qed

lemma distinct_remove_nth:
  assumes "distinct xs"
  shows "distinct (take i xs @ drop (Suc i) xs)"
  using assms set_take_disj_set_drop_if_distinct [of xs i "Suc i"]
  by simp

lemma nth_notin_remove_nth:
  assumes "distinct xs" and "i < length xs"
  shows "xs ! i \<notin> set (take i xs @ drop (Suc i) xs)"
proof -
  from assms(2) have "xs = take i xs @ xs ! i # drop (Suc i) xs"
    by (rule id_take_nth_drop)
  with assms(1) have "distinct (take i xs @ xs ! i # drop (Suc i) xs)" by simp
  then show ?thesis by auto
qed

lemma mset_remove1_live: "x \<in> set xs \<Longrightarrow> mset xs = add_mset x (mset (remove1 x xs))"
  by (induction xs) auto

lemma length_remove1_live: "x \<in> set xs \<Longrightarrow> length (remove1 x xs) + 1 = length xs"
  by (induction xs) auto

text \<open>
  Claim C6, for a name that is not empty. When no record's name compares equal to it
  without regard to case, \<open>icl_unregister\<close> returns \<open>ENXIO\<close> and changes nothing but
  the message buffer, which gets a warning. When some record's name does, it returns
  0 and takes the first such record out of the queue; the records before it and after
  it stay, in their order and as they are. It frees the copy of that record's name
  and the storage of that record and no other allocation: where both were live, two
  allocations fewer are. When the names of the queue are unique, no record with that
  name is left.
\<close>
theorem icl_unregister_named:
  fixes s :: "'w kern"
  assumes "name \<noteq> []"
  shows "((\<forall>im\<in>set (sc_modules (sc s)). \<not> name_matches name im) \<longrightarrow>
            icl_unregister s (Some name) =
              (ENXIO, s\<lparr>msgbuf := msgbuf s @ [Warning Not_registered (Some name)]\<rparr>)) \<and>
         ((\<exists>im\<in>set (sc_modules (sc s)). name_matches name im) \<longrightarrow>
            (\<exists>i<length (sc_modules (sc s)).
               name_matches name (sc_modules (sc s) ! i) \<and>
               (\<forall>j<i. \<not> name_matches name (sc_modules (sc s) ! j)) \<and>
               icl_unregister s (Some name) =
                 (0, s\<lparr>sc := \<lparr>sc_modules =
                            take i (sc_modules (sc s)) @ drop (Suc i) (sc_modules (sc s))\<rparr>,
                        msgbuf := msgbuf s @ [Debug Unregistered (Some name)],
                        m_icl := remove1 (Module_storage (sc_modules (sc s) ! i))
                                   (remove1 (Name_string (im_name (sc_modules (sc s) ! i)))
                                      (m_icl s))\<rparr>) \<and>
               (Name_string (im_name (sc_modules (sc s) ! i)) \<in> set (m_icl s) \<and>
                Module_storage (sc_modules (sc s) ! i) \<in> set (m_icl s) \<longrightarrow>
                  length (m_icl (snd (icl_unregister s (Some name)))) + 2 = length (m_icl s) \<and>
                  mset (m_icl s) =
                    add_mset (Module_storage (sc_modules (sc s) ! i))
                      (add_mset (Name_string (im_name (sc_modules (sc s) ! i)))
                         (mset (m_icl (snd (icl_unregister s (Some name))))))) \<and>
               (names_unique (sc_modules (sc s)) \<longrightarrow>
                  (\<forall>im\<in>set (take i (sc_modules (sc s)) @ drop (Suc i) (sc_modules (sc s))).
                     \<not> name_matches name im))))"
proof (intro conjI impI)
  assume "\<forall>im\<in>set (sc_modules (sc s)). \<not> name_matches name im"
  then have "icl_find (sc s) (Some name) = None"
    using assms by (simp add: icl_find_named_eq name_matches_find)
  then show "icl_unregister s (Some name) =
              (ENXIO, s\<lparr>msgbuf := msgbuf s @ [Warning Not_registered (Some name)]\<rparr>)"
    by (rule icl_unregister_None)
next
  let ?q = "sc_modules (sc s)"
  assume "\<exists>im\<in>set ?q. name_matches name im"
  then have "icl_find_name 0 ?q name \<noteq> None"
    by (simp add: name_matches_find)
  then obtain i where i: "icl_find_name 0 ?q name = Some i" by blast
  then have f: "icl_find (sc s) (Some name) = Some i"
    using assms by (simp add: icl_find_named_eq)
  from icl_find_name_Some [OF i] have len: "i < length ?q"
    and m: "name_matches name (?q ! i)"
    and first: "\<forall>j<i. \<not> name_matches name (?q ! j)"
    by (simp_all add: name_matches_def)
  have u: "names_unique ?q \<longrightarrow> (\<forall>im\<in>set (take i ?q @ drop (Suc i) ?q). \<not> name_matches name im)"
  proof (intro impI ballI notI)
    fix im
    assume uq: "names_unique ?q" and im: "im \<in> set (take i ?q @ drop (Suc i) ?q)"
      and mm: "name_matches name im"
    let ?k = "map (\<lambda>im. ci_key (im_name im)) ?q"
    from uq have d: "distinct ?k" by (simp add: names_unique_keys)
    from len have "?k ! i \<notin> set (take i ?k @ drop (Suc i) ?k)"
      by (intro nth_notin_remove_nth [OF d]) simp
    moreover from m len have "?k ! i = ci_key name" by (simp add: name_matches_key)
    moreover from im mm have "ci_key name \<in> set (take i ?k @ drop (Suc i) ?k)"
      by (force simp: name_matches_key take_map drop_map)
    ultimately show False by simp
  qed
  note un = icl_unregister_Some [OF f]
  have r: "Name_string (im_name (?q ! i)) \<in> set (m_icl s) \<and>
           Module_storage (?q ! i) \<in> set (m_icl s) \<longrightarrow>
             length (m_icl (snd (icl_unregister s (Some name)))) + 2 = length (m_icl s) \<and>
             mset (m_icl s) =
               add_mset (Module_storage (?q ! i))
                 (add_mset (Name_string (im_name (?q ! i)))
                    (mset (m_icl (snd (icl_unregister s (Some name))))))"
  proof
    assume live: "Name_string (im_name (?q ! i)) \<in> set (m_icl s) \<and>
                  Module_storage (?q ! i) \<in> set (m_icl s)"
    let ?m1 = "remove1 (Name_string (im_name (?q ! i))) (m_icl s)"
    from live have 1: "mset (m_icl s) = add_mset (Name_string (im_name (?q ! i))) (mset ?m1)"
      by (intro mset_remove1_live) simp
    from live have in1: "Module_storage (?q ! i) \<in> set ?m1" by simp
    then have 2: "mset ?m1 =
                  add_mset (Module_storage (?q ! i)) (mset (remove1 (Module_storage (?q ! i)) ?m1))"
      by (rule mset_remove1_live)
    from live have l1: "length ?m1 + 1 = length (m_icl s)"
      by (intro length_remove1_live) simp
    from in1 have l2: "length (remove1 (Module_storage (?q ! i)) ?m1) + 1 = length ?m1"
      by (rule length_remove1_live)
    from 1 2 l1 l2 show
      "length (m_icl (snd (icl_unregister s (Some name)))) + 2 = length (m_icl s) \<and>
       mset (m_icl s) =
         add_mset (Module_storage (?q ! i))
           (add_mset (Name_string (im_name (?q ! i)))
              (mset (m_icl (snd (icl_unregister s (Some name))))))"
      unfolding un by (simp del: mset_remove1 length_remove1 add: add_mset_commute)
  qed
  from len m first u un r
  show "\<exists>i<length ?q.
               name_matches name (?q ! i) \<and>
               (\<forall>j<i. \<not> name_matches name (?q ! j)) \<and>
               icl_unregister s (Some name) =
                 (0, s\<lparr>sc := \<lparr>sc_modules = take i ?q @ drop (Suc i) ?q\<rparr>,
                        msgbuf := msgbuf s @ [Debug Unregistered (Some name)],
                        m_icl := remove1 (Module_storage (?q ! i))
                                   (remove1 (Name_string (im_name (?q ! i))) (m_icl s))\<rparr>) \<and>
               (Name_string (im_name (?q ! i)) \<in> set (m_icl s) \<and>
                Module_storage (?q ! i) \<in> set (m_icl s) \<longrightarrow>
                  length (m_icl (snd (icl_unregister s (Some name)))) + 2 = length (m_icl s) \<and>
                  mset (m_icl s) =
                    add_mset (Module_storage (?q ! i))
                      (add_mset (Name_string (im_name (?q ! i)))
                         (mset (m_icl (snd (icl_unregister s (Some name))))))) \<and>
               (names_unique ?q \<longrightarrow>
                  (\<forall>im\<in>set (take i ?q @ drop (Suc i) ?q). \<not> name_matches name im))"
    by blast
qed

theorem icl_unregister_named_witness:
  "''ISER'' \<noteq> [] \<and> ''none'' \<noteq> [] \<and>
   list_all (\<lambda>im. \<not> name_matches ''none'' im)
     (sc_modules (sc (kern_with [drv ''cxgbei'' 9, drv ''iser'' 5, drv ''soft'' 0]))) \<and>
   icl_unregister (kern_with [drv ''cxgbei'' 9, drv ''iser'' 5, drv ''soft'' 0]) (Some ''none'') =
     (ENXIO, (kern_with [drv ''cxgbei'' 9, drv ''iser'' 5, drv ''soft'' 0])
               \<lparr>msgbuf := [Warning Not_registered (Some ''none'')]\<rparr>) \<and>
   (\<exists>im\<in>set (sc_modules (sc (kern_with [drv ''cxgbei'' 9, drv ''iser'' 5, drv ''soft'' 0]))).
      name_matches ''ISER'' im) \<and>
   names_unique (sc_modules (sc (kern_with [drv ''cxgbei'' 9, drv ''iser'' 5, drv ''soft'' 0]))) \<and>
   Name_string ''iser'' \<in> set (m_icl (kern_with [drv ''cxgbei'' 9, drv ''iser'' 5, drv ''soft'' 0])) \<and>
   Module_storage (drv ''iser'' 5) \<in>
     set (m_icl (kern_with [drv ''cxgbei'' 9, drv ''iser'' 5, drv ''soft'' 0])) \<and>
   icl_unregister (kern_with [drv ''cxgbei'' 9, drv ''iser'' 5, drv ''soft'' 0]) (Some ''ISER'') =
     (0, (kern_with [drv ''cxgbei'' 9, drv ''soft'' 0])
           \<lparr>msgbuf := [Debug Unregistered (Some ''ISER'')]\<rparr>) \<and>
   m_icl (kern_with [drv ''cxgbei'' 9, drv ''soft'' 0]) =
     [Module_storage (drv ''cxgbei'' 9), Name_string ''cxgbei'',
      Module_storage (drv ''soft'' 0), Name_string ''soft'', Softc_storage]"
  using icl_unregister_named [of "''ISER''" "kern_with [drv ''cxgbei'' 9, drv ''iser'' 5, drv ''soft'' 0]"]
    icl_unregister_named [of "''none''" "kern_with [drv ''cxgbei'' 9, drv ''iser'' 5, drv ''soft'' 0]"]
  by (simp add: kern_with_def drv_def name_matches_def tolower_def icl_unregister_def
      icl_find_def ICL_DEBUG_def ICL_WARN_def TAILQ_REMOVE_def free_def Let_def)

text \<open>
  With the empty name \<open>icl_unregister\<close> goes through the highest-priority branch of
  \<open>icl_find\<close>: on a registry whose only record is named \<open>iser\<close>, where the empty
  name matches no record, it returns 0 and the registry is empty afterwards.
\<close>

theorem icl_unregister_counterexample:
  "\<not> name_matches [] (drv ''iser'' 5) \<and>
   sc_modules (sc (kern_with [drv ''iser'' 5])) = [drv ''iser'' 5] \<and>
   fst (icl_unregister (kern_with [drv ''iser'' 5]) (Some [])) = 0 \<and>
   fst (icl_unregister (kern_with [drv ''iser'' 5]) (Some [])) \<noteq> ENXIO \<and>
   sc_modules (sc (snd (icl_unregister (kern_with [drv ''iser'' 5]) (Some [])))) = []"
  by (simp add: kern_with_def drv_def name_matches_def tolower_def icl_unregister_def
      icl_find_def ICL_DEBUG_def TAILQ_REMOVE_def ENXIO_def free_def Let_def)

subsection \<open>The listing\<close>

lemma icl_drivers_loop_rest:
  "q \<noteq> [] \<Longrightarrow>
   icl_drivers_loop q (Suc i) rest sb =
     sb @ concat (map (\<lambda>im. CHR '' '' # im_name im) rest)"
  by (induction rest arbitrary: i sb)
     (auto simp: sbuf_putc_def sbuf_printf_def TAILQ_FIRST_def split: list.splits)

lemma join_names_Cons:
  "join_names (n # ns) = n @ concat (map (\<lambda>m. CHR '' '' # m) ns)"
  by (induction ns arbitrary: n) simp_all

lemma sysctl_kern_icl_drivers_join:
  "sysctl_kern_icl_drivers s = join_names (map im_name (sc_modules (sc s)))"
proof (cases "sc_modules (sc s)")
  case Nil
  then show ?thesis by (simp add: sysctl_kern_icl_drivers_def)
next
  case (Cons im rest)
  then have ne: "sc_modules (sc s) \<noteq> []" by simp
  have "icl_drivers_loop (sc_modules (sc s)) 0 (im # rest) [] =
        im_name im @ concat (map (\<lambda>im. CHR '' '' # im_name im) rest)"
    using icl_drivers_loop_rest [OF ne, of 0 rest "im_name im"]
    by (simp add: sbuf_printf_def TAILQ_FIRST_def Cons)
  then show ?thesis
    by (simp add: sysctl_kern_icl_drivers_def Cons join_names_Cons comp_def)
qed

lemma length_join_names:
  "length (join_names ns) = sum_list (map length ns) + (length ns - 1)"
  by (induction ns rule: join_names.induct) simp_all

text \<open>
  Claim C7. The text \<open>sysctl_kern_icl_drivers\<close> produces is the names of the records
  in traversal order with one space between two neighbours and nothing before the
  first or after the last: its length is the sum of the lengths of the names plus one
  less than their number. On an empty registry it is the empty string, and after
  registering \<open>A\<close>, \<open>B\<close> and \<open>C\<close> in that order into an empty registry (all three
  succeed) it is \<open>C B A\<close>.
\<close>
theorem sysctl_kern_icl_drivers_text:
  fixes s :: "'w kern"
  shows "sysctl_kern_icl_drivers s = join_names (map im_name (sc_modules (sc s))) \<and>
         length (sysctl_kern_icl_drivers s) =
           sum_list (map (\<lambda>im. length (im_name im)) (sc_modules (sc s))) +
           (length (sc_modules (sc s)) - 1) \<and>
         (sc_modules (sc s) = [] \<longrightarrow>
            sysctl_kern_icl_drivers s = [] \<and>
            (\<exists>s'. icl_run s [Register (Some ''A'') pa la ca, Register (Some ''B'') pb lb cb,
                              Register (Some ''C'') pc lc cc] = Inr ([0, 0, 0], s') \<and>
                  sysctl_kern_icl_drivers s' = ''C B A''))"
proof (intro conjI impI)
  show "sysctl_kern_icl_drivers s = join_names (map im_name (sc_modules (sc s)))"
    by (rule sysctl_kern_icl_drivers_join)
  show "length (sysctl_kern_icl_drivers s) =
           sum_list (map (\<lambda>im. length (im_name im)) (sc_modules (sc s))) +
           (length (sc_modules (sc s)) - 1)"
    by (simp add: sysctl_kern_icl_drivers_join length_join_names comp_def)
next
  assume e: "sc_modules (sc s) = []"
  then show "sysctl_kern_icl_drivers s = []"
    by (simp add: sysctl_kern_icl_drivers_join)
  from e show "\<exists>s'. icl_run s [Register (Some ''A'') pa la ca, Register (Some ''B'') pb lb cb,
                              Register (Some ''C'') pc lc cc] = Inr ([0, 0, 0], s') \<and>
                  sysctl_kern_icl_drivers s' = ''C B A''"
    by (simp add: icl_register_def icl_find_def tolower_def strdup_def malloc_def free_def Let_def ICL_DEBUG_def
        TAILQ_INSERT_HEAD_def sysctl_kern_icl_drivers_join)
qed

theorem sysctl_kern_icl_drivers_text_witness:
  "sc_modules (sc (kern_with [])) = [] \<and>
   sysctl_kern_icl_drivers (kern_with []) = [] \<and>
   icl_run (kern_with [])
     [Register (Some ''A'') 1 (drv_limits ''A'' 0 131072) (drv_new_conn ''A'' (Some 4096)),
      Register (Some ''B'') 5 (drv_limits ''B'' 0 131072) (drv_new_conn ''B'' (Some 4096)),
      Register (Some ''C'') 3 (drv_limits ''C'' 0 131072) (drv_new_conn ''C'' (Some 4096))] =
     Inr ([0, 0, 0], (kern_with [drv ''C'' 3, drv ''B'' 5, drv ''A'' 1])
            \<lparr>msgbuf := [Debug Registered (Some ''A''), Debug Registered (Some ''B''),
                        Debug Registered (Some ''C'')]\<rparr>) \<and>
   sysctl_kern_icl_drivers (kern_with [drv ''C'' 3, drv ''B'' 5, drv ''A'' 1]) = ''C B A'' \<and>
   sysctl_kern_icl_drivers (kern_with [drv ''iser'' 5, drv ''none'' 0]) = ''iser none''"
  using sysctl_kern_icl_drivers_text [of "kern_with []" 1 "drv_limits ''A'' 0 131072"
      "drv_new_conn ''A'' (Some 4096)" 5 "drv_limits ''B'' 0 131072" "drv_new_conn ''B'' (Some 4096)"
      3 "drv_limits ''C'' 0 131072" "drv_new_conn ''C'' (Some 4096)"]
    sysctl_kern_icl_drivers_text [of "kern_with [drv ''iser'' 5, drv ''none'' 0]"]
  by (simp add: kern_with_def drv_def icl_register_def icl_find_def tolower_def strdup_def malloc_def free_def Let_def
      ICL_DEBUG_def TAILQ_INSERT_HEAD_def sysctl_kern_icl_drivers_def sbuf_putc_def
      sbuf_printf_def)

subsection \<open>Uniqueness of the names\<close>

lemma icl_register_cases:
  assumes "icl_register s offload priority limits new_conn = Inr (rc, s')"
  shows "(rc = EBUSY \<and> sc s' = sc s \<and> icl_find (sc s) offload \<noteq> None) \<or>
         (rc = 0 \<and> icl_find (sc s) offload = None \<and>
          (\<exists>name. offload = Some name \<and>
             sc_modules (sc s') =
               \<lparr>im_name = name, im_priority = priority,
                im_limits = limits, im_new_conn = new_conn\<rparr> # sc_modules (sc s)))"
  using assms
  by (auto simp: icl_register_def ICL_WARN_def ICL_DEBUG_def strdup_def malloc_def Let_def
      TAILQ_INSERT_HEAD_def split: option.splits)

lemma icl_unregister_cases:
  assumes "icl_unregister s offload = (rc, s')"
  shows "(rc = ENXIO \<and> sc s' = sc s) \<or>
         (rc = 0 \<and> (\<exists>i<length (sc_modules (sc s)).
            sc_modules (sc s') = take i (sc_modules (sc s)) @ drop (Suc i) (sc_modules (sc s))))"
proof (cases "icl_find (sc s) offload")
  case None
  from icl_unregister_None [OF this] assms show ?thesis by simp
next
  case (Some i)
  from icl_unregister_Some [OF Some] icl_find_less [OF Some] assms show ?thesis by auto
qed

lemma names_unique_register:
  assumes "names_unique (sc_modules softc)" and "icl_find softc (Some name) = None"
  shows "names_unique (\<lparr>im_name = name, im_priority = priority,
                        im_limits = limits, im_new_conn = new_conn\<rparr> # sc_modules softc)"
proof (cases "name = []")
  case True
  with assms(2) have "sc_modules softc = []"
    by (simp add: icl_find_unnamed_eq split: list.splits)
  then show ?thesis by simp
next
  case False
  with assms(2) have "\<forall>im\<in>set (sc_modules softc). \<not> name_matches name im"
    by (simp add: icl_find_named_eq name_matches_find)
  with assms(1) show ?thesis by (simp add: list_all_iff)
qed

lemma names_unique_remove:
  "names_unique q \<Longrightarrow> names_unique (take i q @ drop (Suc i) q)"
  using distinct_remove_nth [of "map (\<lambda>im. ci_key (im_name im)) q" i]
  by (simp add: names_unique_keys take_map drop_map)

lemma names_unique_exec:
  assumes "names_unique (sc_modules (sc s))" and "icl_exec s c = Inr (rc, s')"
  shows "names_unique (sc_modules (sc s'))"
proof (cases c)
  case (Register offload priority limits new_conn)
  with assms(2) have "icl_register s offload priority limits new_conn = Inr (rc, s')" by simp
  from icl_register_cases [OF this] assms(1) show ?thesis
    by (auto simp del: names_unique.simps intro: names_unique_register)
next
  case (Unregister offload)
  with assms(2) have "icl_unregister s offload = (rc, s')" by simp
  from icl_unregister_cases [OF this] assms(1) show ?thesis
    by (auto simp: names_unique_remove)
qed

lemma names_unique_run:
  "names_unique (sc_modules (sc s)) \<Longrightarrow> icl_run s calls = Inr (rcs, s') \<Longrightarrow>
   names_unique (sc_modules (sc s'))"
proof (induction calls arbitrary: s rcs)
  case Nil
  then show ?case by simp
next
  case (Cons c calls)
  from Cons.prems(2) obtain rc s1 rcs1 where
    1: "icl_exec s c = Inr (rc, s1)" and 2: "icl_run s1 calls = Inr (rcs1, s')"
    by (auto split: sum.splits prod.splits)
  from names_unique_exec [OF Cons.prems(1) 1] have "names_unique (sc_modules (sc s1))" .
  from Cons.IH [OF this 2] show ?case .
qed

lemma names_unique_nth:
  "names_unique q =
     (\<forall>i<length q. \<forall>j<length q. i \<noteq> j \<longrightarrow> strcasecmp (im_name (q ! i)) (im_name (q ! j)) \<noteq> 0)"
  by (simp add: names_unique_keys distinct_conv_nth strcasecmp_key)

text \<open>
  Claim C8. A call of \<open>icl_register\<close> or \<open>icl_unregister\<close> that returns keeps the
  names of the queue unique, and so in every state that a sequence of such calls
  reaches from the empty registry, the names of two different records never compare
  equal under \<open>strcasecmp\<close>.
\<close>
theorem icl_names_unique:
  fixes s :: "'w kern"
  shows "(\<forall>c rc s'. names_unique (sc_modules (sc s)) \<and> icl_exec s c = Inr (rc, s') \<longrightarrow>
            names_unique (sc_modules (sc s'))) \<and>
         (\<forall>calls rcs s'. sc_modules (sc s) = [] \<and> icl_run s calls = Inr (rcs, s') \<longrightarrow>
            (\<forall>i<length (sc_modules (sc s')). \<forall>j<length (sc_modules (sc s')). i \<noteq> j \<longrightarrow>
               strcasecmp (im_name (sc_modules (sc s') ! i))
                          (im_name (sc_modules (sc s') ! j)) \<noteq> 0))"
proof (intro conjI allI impI)
  fix c rc s'
  assume "names_unique (sc_modules (sc s)) \<and> icl_exec s c = Inr (rc, s')"
  then show "names_unique (sc_modules (sc s'))"
    using names_unique_exec by blast
next
  fix calls rcs s' i j
  assume a: "sc_modules (sc s) = [] \<and> icl_run s calls = Inr (rcs, s')"
    and ij: "i < length (sc_modules (sc s'))" "j < length (sc_modules (sc s'))" "i \<noteq> j"
  from a have "names_unique (sc_modules (sc s))" by simp
  with a have "names_unique (sc_modules (sc s'))" using names_unique_run by blast
  with ij show "strcasecmp (im_name (sc_modules (sc s') ! i))
                          (im_name (sc_modules (sc s') ! j)) \<noteq> 0"
    by (simp add: names_unique_nth)
qed

subsection \<open>Teardown\<close>

lemma icl_load_empty: "sc_modules (sc (snd (icl_load s))) = []"
  by (simp add: icl_load_def malloc_def)

lemma count_exec:
  assumes "icl_exec s c = Inr (rc, s')"
  shows "length (sc_modules (sc s')) + (if \<not> is_register c \<and> rc = 0 then 1 else 0) =
         length (sc_modules (sc s)) + (if is_register c \<and> rc = 0 then 1 else 0)"
proof (cases c)
  case (Register offload priority limits new_conn)
  with assms have "icl_register s offload priority limits new_conn = Inr (rc, s')" by simp
  from icl_register_cases [OF this] Register show ?thesis
    by (auto simp: EBUSY_def)
next
  case (Unregister offload)
  with assms have "icl_unregister s offload = (rc, s')" by simp
  from icl_unregister_cases [OF this] Unregister show ?thesis
    by (auto simp: ENXIO_def)
qed

lemma count_run:
  "icl_run s calls = Inr (rcs, s') \<Longrightarrow>
   length (sc_modules (sc s')) + unregistered_ok calls rcs =
   length (sc_modules (sc s)) + registered_ok calls rcs"
proof (induction calls arbitrary: s rcs)
  case Nil
  then show ?case by simp
next
  case (Cons c calls)
  from Cons.prems obtain rc s1 rcs1 where
    1: "icl_exec s c = Inr (rc, s1)" and 2: "icl_run s1 calls = Inr (rcs1, s')"
    and 3: "rcs = rc # rcs1"
    by (auto split: sum.splits prod.splits)
  from count_exec [OF 1] Cons.IH [OF 2] show ?case
    unfolding 3 by (simp split: if_splits)
qed

text \<open>
  Claim C9. \<open>icl_unload\<close> asserts that the queue is empty: on an empty queue it
  frees the softc and returns 0, on any other it panics with the assertion's message and returns no
  status. After a sequence of calls from the empty registry the queue holds as many
  records as there were successful registrations less the successful
  unregistrations, so when every registration has been matched by a successful
  unregistration the queue is empty and \<open>icl_unload\<close> returns 0.
\<close>
theorem icl_unload_empty:
  fixes s :: "'w kern"
  shows "(\<forall>s0 calls rcs. sc_modules (sc s0) = [] \<and> icl_run s0 calls = Inr (rcs, s) \<longrightarrow>
            length (sc_modules (sc s)) + unregistered_ok calls rcs = registered_ok calls rcs \<and>
            (registered_ok calls rcs = unregistered_ok calls rcs \<longrightarrow> icl_unload s = Inr (0, s\<lparr>m_icl := remove1 Softc_storage (m_icl s)\<rparr>))) \<and>
         (sc_modules (sc s) = [] \<longrightarrow> icl_unload s = Inr (0, s\<lparr>m_icl := remove1 Softc_storage (m_icl s)\<rparr>)) \<and>
         (sc_modules (sc s) \<noteq> [] \<longrightarrow> icl_unload s = Inl (Kassert ''still have modules''))"
proof (intro conjI allI impI)
  fix s0 :: "'w kern" and calls rcs
  assume a: "sc_modules (sc s0) = [] \<and> icl_run s0 calls = Inr (rcs, s)"
  with count_run [of s0 calls rcs s]
  show c: "length (sc_modules (sc s)) + unregistered_ok calls rcs = registered_ok calls rcs"
    by simp
  assume "registered_ok calls rcs = unregistered_ok calls rcs"
  with c have "sc_modules (sc s) = []" by simp
  then show "icl_unload s = Inr (0, s\<lparr>m_icl := remove1 Softc_storage (m_icl s)\<rparr>)"
    by (simp add: icl_unload_def KASSERT_def TAILQ_EMPTY_def free_def)
next
  assume "sc_modules (sc s) = []"
  then show "icl_unload s = Inr (0, s\<lparr>m_icl := remove1 Softc_storage (m_icl s)\<rparr>)"
    by (simp add: icl_unload_def KASSERT_def TAILQ_EMPTY_def free_def)
next
  assume "sc_modules (sc s) \<noteq> []"
  then show "icl_unload s = Inl (Kassert ''still have modules'')"
    by (simp add: icl_unload_def KASSERT_def TAILQ_EMPTY_def free_def split: list.splits)
qed


theorem icl_names_unique_witness:
  "names_unique (sc_modules (sc (kern_with [drv ''iser'' 5]))) \<and>
   icl_exec (kern_with [drv ''iser'' 5])
      (Register (Some ''none'') 0 (drv_limits ''none'' 0 131072) (drv_new_conn ''none'' (Some 4096))) =
     Inr (0, (kern_with [drv ''none'' 0, drv ''iser'' 5])
               \<lparr>msgbuf := [Debug Registered (Some ''none'')]\<rparr>) \<and>
   names_unique (sc_modules (sc (kern_with [drv ''none'' 0, drv ''iser'' 5]))) \<and>
   sc_modules (sc (kern_with [])) = [] \<and>
   icl_run (kern_with [])
     [Register (Some ''iser'') 5 (drv_limits ''iser'' 0 131072) (drv_new_conn ''iser'' (Some 4096)),
      Register (Some ''ISER'') 9 (drv_limits ''ISER'' 0 131072) (drv_new_conn ''ISER'' (Some 4096)),
      Register (Some ''none'') 0 (drv_limits ''none'' 0 131072) (drv_new_conn ''none'' (Some 4096)),
      Unregister (Some ''iser''),
      Register (Some ''Iser'') 7 (drv_limits ''Iser'' 0 131072) (drv_new_conn ''Iser'' (Some 4096))] =
     Inr ([0, EBUSY, 0, 0, 0],
          (kern_with [drv ''Iser'' 7, drv ''none'' 0])
            \<lparr>msgbuf := [Debug Registered (Some ''iser''),
                        Warning Already_registered (Some ''ISER''),
                        Debug Registered (Some ''none''),
                        Debug Unregistered (Some ''iser''),
                        Debug Registered (Some ''Iser'')]\<rparr>) \<and>
   strcasecmp (im_name (drv ''Iser'' 7)) (im_name (drv ''none'' 0)) \<noteq> 0 \<and>
   strcasecmp (im_name (drv ''none'' 0)) (im_name (drv ''Iser'' 7)) \<noteq> 0"
  using icl_names_unique [of "kern_with [drv ''iser'' 5]"] icl_names_unique [of "kern_with []"]
  by (simp add: kern_with_def drv_def icl_register_def icl_unregister_def icl_find_def
      tolower_def strdup_def malloc_def free_def Let_def ICL_DEBUG_def ICL_WARN_def
      TAILQ_INSERT_HEAD_def TAILQ_REMOVE_def
      name_matches_def)

theorem icl_unload_empty_witness:
  "sc_modules (sc (kern_with [])) = [] \<and>
   icl_run (kern_with [])
     [Register (Some ''iser'') 5 (drv_limits ''iser'' 0 131072) (drv_new_conn ''iser'' (Some 4096)),
      Register (Some ''none'') 0 (drv_limits ''none'' 0 131072) (drv_new_conn ''none'' (Some 4096)),
      Unregister (Some ''ISER''),
      Unregister (Some ''soft''),
      Unregister (Some ''none'')] =
     Inr ([0, 0, 0, ENXIO, 0],
          (kern_with [])
            \<lparr>msgbuf := [Debug Registered (Some ''iser''),
                        Debug Registered (Some ''none''),
                        Debug Unregistered (Some ''ISER''),
                        Warning Not_registered (Some ''soft''),
                        Debug Unregistered (Some ''none'')]\<rparr>) \<and>
   registered_ok
     [Register (Some ''iser'') 5 (drv_limits ''iser'' 0 131072) (drv_new_conn ''iser'' (Some 4096)),
      Register (Some ''none'') 0 (drv_limits ''none'' 0 131072) (drv_new_conn ''none'' (Some 4096)),
      Unregister (Some ''ISER''),
      Unregister (Some ''soft''),
      Unregister (Some ''none'')] [0, 0, 0, ENXIO, 0] = 2 \<and>
   unregistered_ok
     [Register (Some ''iser'') 5 (drv_limits ''iser'' 0 131072) (drv_new_conn ''iser'' (Some 4096)),
      Register (Some ''none'') 0 (drv_limits ''none'' 0 131072) (drv_new_conn ''none'' (Some 4096)),
      Unregister (Some ''ISER''),
      Unregister (Some ''soft''),
      Unregister (Some ''none'')] [0, 0, 0, ENXIO, 0] = 2 \<and>
   icl_unload ((kern_with [])
            \<lparr>msgbuf := [Debug Registered (Some ''iser''),
                        Debug Registered (Some ''none''),
                        Debug Unregistered (Some ''ISER''),
                        Warning Not_registered (Some ''soft''),
                        Debug Unregistered (Some ''none'')]\<rparr>) =
     Inr (0, (kern_with [])
            \<lparr>msgbuf := [Debug Registered (Some ''iser''),
                        Debug Registered (Some ''none''),
                        Debug Unregistered (Some ''ISER''),
                        Warning Not_registered (Some ''soft''),
                        Debug Unregistered (Some ''none'')],
             m_icl := []\<rparr>) \<and>
   sc_modules (sc (kern_with [drv ''iser'' 5])) \<noteq> [] \<and>
   icl_unload (kern_with [drv ''iser'' 5]) = Inl (Kassert ''still have modules'')"
  using icl_unload_empty [of "(kern_with [])
            \<lparr>msgbuf := [Debug Registered (Some ''iser''),
                        Debug Registered (Some ''none''),
                        Debug Unregistered (Some ''ISER''),
                        Warning Not_registered (Some ''soft''),
                        Debug Unregistered (Some ''none'')]\<rparr>"]
    icl_unload_empty [of "kern_with [drv ''iser'' 5]"]
  by (simp add: kern_with_def drv_def icl_register_def icl_unregister_def icl_find_def
      tolower_def strdup_def malloc_def free_def Let_def ICL_DEBUG_def ICL_WARN_def
      TAILQ_INSERT_HEAD_def TAILQ_REMOVE_def
      ENXIO_def icl_unload_def KASSERT_def TAILQ_EMPTY_def)

end
